theory Spec2Isabelle
  imports Complex_Main
begin

unbundle bit_operations_syntax

section \<open>The generalized Ising model of Task_3.ipynb\<close>

text \<open>
  The notebook defines the class \<open>GeneralizedIsingModel\<close> (fields \<open>E0\<close>, \<open>h\<close>, \<open>J\<close>,
  \<open>K\<close>, \<open>L\<close>, \<open>N\<close>, \<open>num_spins\<close>, \<open>spins\<close>), its methods \<open>energy\<close> and
  \<open>energy_diff\<close>, and the exhaustive scan over \<open>space\<close>.

  Conventions of the embedding:
  \<^item> numpy's float64 coefficients are idealised as \<open>real\<close>: every statement below is about
    exact arithmetic, rounding is not modelled;
  \<^item> spins are numpy integers, modelled as \<open>int\<close>; the code only ever stores \<open>-1\<close> and
    \<open>1\<close>, so no product of spins leaves the 64-bit range;
  \<^item> a numpy array of rank \<open>r\<close> is a list nested \<open>r\<close> times; an access outside an axis
    raises \<open>IndexError\<close> in numpy and is a branch of the model;
  \<^item> an object of the class is a record; a method that mutates \<open>self\<close> returns the
    record after the call next to its result;
  \<^item> the fields \<open>N\<close> and \<open>num_spins\<close> are natural numbers: the constructor raises for a
    negative \<open>N\<close>, so no object holds one.
\<close>

datatype error = IndexError | ValueError

record ising =
  E0 :: real
  h :: "real list"
  J :: "real list list"
  K :: "real list list list"
  L :: "real list list list list"
  N :: nat
  num_spins :: nat
  spins :: "int list"

subsection \<open>Array accesses and sequencing of failures\<close>

definition bind_res :: "error + 'a \<Rightarrow> ('a \<Rightarrow> error + 'b) \<Rightarrow> error + 'b" where
  "bind_res r f = (case r of Inl e \<Rightarrow> Inl e | Inr v \<Rightarrow> f v)"

definition get1 :: "'a list \<Rightarrow> nat \<Rightarrow> error + 'a" where
  "get1 xs i = (if i < length xs then Inr (xs ! i) else Inl IndexError)"

definition get2 :: "'a list list \<Rightarrow> nat \<Rightarrow> nat \<Rightarrow> error + 'a" where
  "get2 xs i j = bind_res (get1 xs i) (\<lambda>r. get1 r j)"

definition get3 :: "'a list list list \<Rightarrow> nat \<Rightarrow> nat \<Rightarrow> nat \<Rightarrow> error + 'a" where
  "get3 xs i j k = bind_res (get1 xs i) (\<lambda>r. get2 r j k)"

definition get4 :: "'a list list list list \<Rightarrow> nat \<Rightarrow> nat \<Rightarrow> nat \<Rightarrow> nat \<Rightarrow> error + 'a" where
  "get4 xs i j k l = bind_res (get1 xs i) (\<lambda>r. get3 r j k l)"

text \<open>A \<open>for\<close> loop over a list of indices whose body may raise: the first failure ends it.\<close>

fun for_each :: "('a \<Rightarrow> 's \<Rightarrow> error + 's) \<Rightarrow> 'a list \<Rightarrow> 's \<Rightarrow> error + 's" where
  "for_each f [] s = Inr s"
| "for_each f (x # xs) s = (case f x s of Inl e \<Rightarrow> Inl e | Inr s' \<Rightarrow> for_each f xs s')"

subsection \<open>energy\<close>

text \<open>The four running totals \<open>tot_h\<close>, \<open>tot_J\<close>, \<open>tot_K\<close>, \<open>tot_L\<close> of \<open>energy\<close>.\<close>

record totals =
  tot_h :: real
  tot_J :: real
  tot_K :: real
  tot_L :: real

definition body_l :: "ising \<Rightarrow> nat \<Rightarrow> nat \<Rightarrow> nat \<Rightarrow> nat \<Rightarrow> totals \<Rightarrow> error + totals" where
  "body_l m i j k l t =
     bind_res (get4 (L m) i j k l) (\<lambda>c.
     bind_res (get1 (spins m) i) (\<lambda>si.
     bind_res (get1 (spins m) j) (\<lambda>sj.
     bind_res (get1 (spins m) k) (\<lambda>sk.
     bind_res (get1 (spins m) l) (\<lambda>sl.
       Inr (t\<lparr>tot_L := tot_L t + c * real_of_int (si * sj * sk * sl)\<rparr>))))))"

definition body_k :: "ising \<Rightarrow> nat \<Rightarrow> nat \<Rightarrow> nat \<Rightarrow> totals \<Rightarrow> error + totals" where
  "body_k m i j k t =
     bind_res (get3 (K m) i j k) (\<lambda>c.
     bind_res (get1 (spins m) i) (\<lambda>si.
     bind_res (get1 (spins m) j) (\<lambda>sj.
     bind_res (get1 (spins m) k) (\<lambda>sk.
       for_each (body_l m i j k) [0..<N m]
         (t\<lparr>tot_K := tot_K t + c * real_of_int (si * sj * sk)\<rparr>)))))"

definition body_j :: "ising \<Rightarrow> nat \<Rightarrow> nat \<Rightarrow> totals \<Rightarrow> error + totals" where
  "body_j m i j t =
     bind_res (get2 (J m) i j) (\<lambda>c.
     bind_res (get1 (spins m) i) (\<lambda>si.
     bind_res (get1 (spins m) j) (\<lambda>sj.
       for_each (body_k m i j) [0..<N m]
         (t\<lparr>tot_J := tot_J t + c * real_of_int (si * sj)\<rparr>))))"

definition body_i :: "ising \<Rightarrow> nat \<Rightarrow> totals \<Rightarrow> error + totals" where
  "body_i m i t =
     bind_res (get1 (h m) i) (\<lambda>c.
     bind_res (get1 (spins m) i) (\<lambda>si.
       for_each (body_j m i) [0..<N m]
         (t\<lparr>tot_h := tot_h t + c * real_of_int si\<rparr>)))"

definition energy :: "ising \<Rightarrow> error + real" where
  "energy m =
     bind_res (for_each (body_i m) [0..<N m] \<lparr>tot_h = 0, tot_J = 0, tot_K = 0, tot_L = 0\<rparr>)
       (\<lambda>t. Inr (E0 m + tot_h t + tot_J t + tot_K t + tot_L t))"

subsection \<open>energy_diff\<close>

text \<open>
  numpy resolves an index \<open>i\<close> on an axis of length \<open>n\<close>: \<open>0 \<le> i < n\<close> is position \<open>i\<close>,
  \<open>-n \<le> i < 0\<close> is position \<open>n + i\<close>, anything else raises \<open>IndexError\<close>.
\<close>

definition np_index :: "nat \<Rightarrow> int \<Rightarrow> error + nat" where
  "np_index n i =
     (if 0 \<le> i \<and> i < int n then Inr (nat i)
      else if i < 0 \<and> - int n \<le> i then Inr (nat (int n + i))
      else Inl IndexError)"

text \<open>The statement \<open>self.spins[i] = (-1)*self.spins[i]\<close>.\<close>

definition flip_spin :: "ising \<Rightarrow> int \<Rightarrow> error + ising" where
  "flip_spin m i =
     bind_res (np_index (length (spins m)) i) (\<lambda>p.
       Inr (m\<lparr>spins := (spins m)[p := (- 1) * (spins m ! p)]\<rparr>))"

text \<open>
  \<open>energy_diff\<close> returns the result of the call (the difference or the exception raised)
  together with the object as the call leaves it.
\<close>

definition energy_diff :: "ising \<Rightarrow> int \<Rightarrow> (error + real) \<times> ising" where
  "energy_diff m i =
     (case energy m of Inl e \<Rightarrow> (Inl e, m) | Inr e1 \<Rightarrow>
      (case flip_spin m i of Inl e \<Rightarrow> (Inl e, m) | Inr m1 \<Rightarrow>
       (case energy m1 of Inl e \<Rightarrow> (Inl e, m1) | Inr e2 \<Rightarrow>
        (case flip_spin m1 i of Inl e \<Rightarrow> (Inl e, m1) | Inr m2 \<Rightarrow>
          (Inr (e2 - e1), m2)))))"

subsection \<open>The constructor\<close>

text \<open>
  \<open>__init__\<close> stores its arguments and draws the spins with \<open>np.random.rand(N)\<close>, which
  raises \<open>ValueError\<close> for a negative \<open>N\<close>. The generator is a parameter: \<open>rnd k\<close> is the
  \<open>k\<close>-th sample drawn. No extent of a tensor is compared with \<open>N\<close>.
\<close>

definition init ::
  "real \<Rightarrow> real list \<Rightarrow> real list list \<Rightarrow> real list list list \<Rightarrow> real list list list list
     \<Rightarrow> int \<Rightarrow> (nat \<Rightarrow> real) \<Rightarrow> error + ising" where
  "init e0 hh jj kk ll n rnd =
     (if n < 0 then Inl ValueError
      else Inr \<lparr>E0 = e0, h = hh, J = jj, K = kk, L = ll, N = nat n, num_spins = nat n,
                spins = map (\<lambda>k. 2 * (if rnd k < 0.5 then 1 else 0) - 1) [0..<nat n]\<rparr>)"

subsection \<open>The exhaustive scan\<close>

text \<open>
  \<open>space\<close> has one row per integer \<open>d\<close> of \<open>dim = arange(2 ** num_spins)\<close>; entry \<open>b\<close> of
  the row is \<open>2 * int((d & (1 << b)) > 0) - 1\<close>. The integers are unbounded here; numpy's
  64-bit ones agree with them as long as \<open>2 ** num_spins\<close> rows can be allocated at all.
\<close>

definition space_row :: "nat \<Rightarrow> int \<Rightarrow> int list" where
  "space_row n d = map (\<lambda>b. 2 * (if (d AND push_bit b 1) > 0 then 1 else 0) - 1) [0..<n]"

definition space :: "nat \<Rightarrow> int list list" where
  "space n = map (\<lambda>d. space_row n (int d)) [0..<2 ^ n]"

text \<open>
  The update of the running minimum \<open>min\<close> (\<open>None\<close> before the first pass):
  \<open>if min == None: min = temp_energy\<close>, \<open>elif min > temp_energy: min = temp_energy\<close>.
\<close>

definition update_min :: "real option \<Rightarrow> real \<Rightarrow> real option" where
  "update_min mn temp_energy =
     (case mn of None \<Rightarrow> Some temp_energy
      | Some v \<Rightarrow> if v > temp_energy then Some temp_energy else Some v)"

text \<open>
  One pass of the loop body: \<open>ising.spins = space[i]\<close>, \<open>temp_energy = ising.energy()\<close>,
  then the update of \<open>min\<close>. The state of the loop is the object and \<open>min\<close>; \<open>sp\<close> is
  the array \<open>space\<close>, built once before the loop.
\<close>

definition scan_step ::
  "int list list \<Rightarrow> nat \<Rightarrow> ising \<times> real option \<Rightarrow> error + ising \<times> real option" where
  "scan_step sp i st =
     (case st of (m, mn) \<Rightarrow>
       bind_res (get1 sp i) (\<lambda>row.
         let m' = m\<lparr>spins := row\<rparr> in
         bind_res (energy m') (\<lambda>temp_energy. Inr (m', update_min mn temp_energy))))"

definition exhaustive :: "ising \<Rightarrow> error + ising \<times> real option" where
  "exhaustive m =
     (let sp = space (num_spins m)
      in for_each (scan_step sp) [0..<2 ^ num_spins m] (m, None))"

subsection \<open>Well-formed models and spin configurations\<close>

definition dims2 :: "nat \<Rightarrow> 'a list list \<Rightarrow> bool" where
  "dims2 n xs = (length xs = n \<and> list_all (\<lambda>r. length r = n) xs)"

definition dims3 :: "nat \<Rightarrow> 'a list list list \<Rightarrow> bool" where
  "dims3 n xs = (length xs = n \<and> list_all (dims2 n) xs)"

definition dims4 :: "nat \<Rightarrow> 'a list list list list \<Rightarrow> bool" where
  "dims4 n xs = (length xs = n \<and> list_all (dims3 n) xs)"

text \<open>The HamiltonianModel invariant: every tensor has extent \<open>N\<close> on every axis.\<close>

definition wf_model :: "ising \<Rightarrow> bool" where
  "wf_model m = (num_spins m = N m \<and> length (h m) = N m \<and> dims2 (N m) (J m)
     \<and> dims3 (N m) (K m) \<and> dims4 (N m) (L m))"

text \<open>A spin configuration of \<open>n\<close> sites: \<open>n\<close> entries, each \<open>-1\<close> or \<open>1\<close>.\<close>

definition config :: "nat \<Rightarrow> int list \<Rightarrow> bool" where
  "config n s = (length s = n \<and> list_all (\<lambda>x. x = - 1 \<or> x = 1) s)"

subsection \<open>The Hamiltonian as a sum over all index tuples\<close>

text \<open>
  The summands of the four totals, and the value the spec gives for the energy: every index
  ranges over all of \<open>{..<N}\<close>, repeated indices included.
\<close>

definition term_h :: "ising \<Rightarrow> nat \<Rightarrow> real" where
  "term_h m i = h m ! i * real_of_int (spins m ! i)"

definition term_J :: "ising \<Rightarrow> nat \<Rightarrow> nat \<Rightarrow> real" where
  "term_J m i j = J m ! i ! j * real_of_int (spins m ! i * spins m ! j)"

definition term_K :: "ising \<Rightarrow> nat \<Rightarrow> nat \<Rightarrow> nat \<Rightarrow> real" where
  "term_K m i j k = K m ! i ! j ! k * real_of_int (spins m ! i * spins m ! j * spins m ! k)"

definition term_L :: "ising \<Rightarrow> nat \<Rightarrow> nat \<Rightarrow> nat \<Rightarrow> nat \<Rightarrow> real" where
  "term_L m i j k l =
     L m ! i ! j ! k ! l * real_of_int (spins m ! i * spins m ! j * spins m ! k * spins m ! l)"

definition hamiltonian :: "ising \<Rightarrow> real" where
  "hamiltonian m = E0 m + (\<Sum>i<N m. term_h m i)
     + (\<Sum>i<N m. \<Sum>j<N m. term_J m i j)
     + (\<Sum>i<N m. \<Sum>j<N m. \<Sum>k<N m. term_K m i j k)
     + (\<Sum>i<N m. \<Sum>j<N m. \<Sum>k<N m. \<Sum>l<N m. term_L m i j k l)"

text \<open>A model whose tensors and spin vector all have extent \<open>N\<close>.\<close>

definition shaped :: "ising \<Rightarrow> bool" where
  "shaped m = (wf_model m \<and> length (spins m) = N m)"

subsection \<open>Tensors that are identically zero\<close>

definition all_zero1 :: "real list \<Rightarrow> bool" where
  "all_zero1 xs = list_all (\<lambda>x. x = 0) xs"

definition all_zero3 :: "real list list list \<Rightarrow> bool" where
  "all_zero3 xs = list_all (list_all all_zero1) xs"

subsection \<open>Two concrete models\<close>

text \<open>
  A two-site model with a diagonal pair coefficient \<open>J[0,0]\<close> and repeated-index entries
  of \<open>K\<close> and \<open>L\<close>, and a one-site model with a field only.
\<close>

definition two_site :: ising where
  "two_site = \<lparr>E0 = 1, h = [1, 2], J = [[3, 0], [1, 0]],
     K = [[[0, 0], [0, 0]], [[0, 0], [0, 1]]],
     L = [[[[0, 0], [0, 0]], [[0, 0], [0, 2]]], [[[0, 0], [0, 0]], [[0, 0], [0, 0]]]],
     N = 2, num_spins = 2, spins = [1, - 1]\<rparr>"

definition one_site :: ising where
  "one_site = \<lparr>E0 = 0, h = [1], J = [[0]], K = [[[0]]], L = [[[[0]]]],
     N = 1, num_spins = 1, spins = [- 1]\<rparr>"

text \<open>A two-site model with pair and quadruple terms only.\<close>

definition even_site :: ising where
  "even_site = \<lparr>E0 = 1, h = [0, 0], J = [[3, 0], [1, 0]],
     K = [[[0, 0], [0, 0]], [[0, 0], [0, 0]]],
     L = [[[[0, 0], [0, 0]], [[0, 0], [0, 2]]], [[[0, 0], [0, 0]], [[0, 0], [0, 0]]]],
     N = 2, num_spins = 2, spins = [1, - 1]\<rparr>"

subsection \<open>A random source\<close>

text \<open>A generator whose every sample is \<open>0\<close>: every spin drawn from it is \<open>1\<close>.\<close>

definition all_low :: "nat \<Rightarrow> real" where
  "all_low k = 0"

section \<open>Properties\<close>

subsection \<open>Accesses inside the extents succeed\<close>

lemma get1_ok: "i < length xs \<Longrightarrow> get1 xs i = Inr (xs ! i)"
  by (simp add: get1_def)

lemma get2_ok: "dims2 n xs \<Longrightarrow> i < n \<Longrightarrow> j < n \<Longrightarrow> get2 xs i j = Inr (xs ! i ! j)"
  by (simp add: get2_def get1_def bind_res_def dims2_def list_all_length)

lemma dims3_nth: "dims3 n xs \<Longrightarrow> i < n \<Longrightarrow> dims2 n (xs ! i)"
  by (simp add: dims3_def list_all_length)

lemma dims4_nth: "dims4 n xs \<Longrightarrow> i < n \<Longrightarrow> dims3 n (xs ! i)"
  by (simp add: dims4_def list_all_length)

lemma get3_ok:
  "dims3 n xs \<Longrightarrow> i < n \<Longrightarrow> j < n \<Longrightarrow> k < n \<Longrightarrow> get3 xs i j k = Inr (xs ! i ! j ! k)"
  using dims3_nth [of n xs i]
  by (simp add: get3_def get1_def bind_res_def get2_ok [where n = n] dims3_def)

lemma get4_ok:
  "dims4 n xs \<Longrightarrow> i < n \<Longrightarrow> j < n \<Longrightarrow> k < n \<Longrightarrow> l < n
    \<Longrightarrow> get4 xs i j k l = Inr (xs ! i ! j ! k ! l)"
  using dims4_nth [of n xs i]
  by (simp add: get4_def get1_def bind_res_def get3_ok [where n = n] dims4_def)

lemma shaped_spin: "shaped m \<Longrightarrow> i < N m \<Longrightarrow> get1 (spins m) i = Inr (spins m ! i)"
  by (simp add: shaped_def get1_ok)

lemma shaped_h: "shaped m \<Longrightarrow> i < N m \<Longrightarrow> get1 (h m) i = Inr (h m ! i)"
  by (simp add: shaped_def wf_model_def get1_ok)

lemma shaped_J: "shaped m \<Longrightarrow> i < N m \<Longrightarrow> j < N m \<Longrightarrow> get2 (J m) i j = Inr (J m ! i ! j)"
  by (simp add: shaped_def wf_model_def get2_ok [where n = "N m"])

lemma shaped_K:
  "shaped m \<Longrightarrow> i < N m \<Longrightarrow> j < N m \<Longrightarrow> k < N m
    \<Longrightarrow> get3 (K m) i j k = Inr (K m ! i ! j ! k)"
  by (simp add: shaped_def wf_model_def get3_ok [where n = "N m"])

lemma shaped_L:
  "shaped m \<Longrightarrow> i < N m \<Longrightarrow> j < N m \<Longrightarrow> k < N m \<Longrightarrow> l < N m
    \<Longrightarrow> get4 (L m) i j k l = Inr (L m ! i ! j ! k ! l)"
  by (simp add: shaped_def wf_model_def get4_ok [where n = "N m"])

lemma upt_below: "set [0..<n] \<subseteq> {..<n}"
  by auto

lemma body_l_ok:
  "shaped m \<Longrightarrow> i < N m \<Longrightarrow> j < N m \<Longrightarrow> k < N m \<Longrightarrow> l < N m
    \<Longrightarrow> body_l m i j k l t = Inr (t\<lparr>tot_L := tot_L t + term_L m i j k l\<rparr>)"
  by (simp add: body_l_def shaped_L shaped_spin bind_res_def term_L_def)

lemma loop_l_ok:
  "shaped m \<Longrightarrow> i < N m \<Longrightarrow> j < N m \<Longrightarrow> k < N m \<Longrightarrow> \<forall>x\<in>set ls. x < N m
    \<Longrightarrow> for_each (body_l m i j k) ls t
        = Inr (t\<lparr>tot_L := tot_L t + (\<Sum>l\<leftarrow>ls. term_L m i j k l)\<rparr>)"
  by (induction ls arbitrary: t) (simp_all add: body_l_ok add.assoc)

lemma body_k_ok:
  "shaped m \<Longrightarrow> i < N m \<Longrightarrow> j < N m \<Longrightarrow> k < N m
    \<Longrightarrow> body_k m i j k t
        = Inr (t\<lparr>tot_K := tot_K t + term_K m i j k,
                 tot_L := tot_L t + (\<Sum>l\<leftarrow>[0..<N m]. term_L m i j k l)\<rparr>)"
  by (simp add: body_k_def shaped_K shaped_spin bind_res_def term_K_def loop_l_ok)

lemma loop_k_ok:
  "shaped m \<Longrightarrow> i < N m \<Longrightarrow> j < N m \<Longrightarrow> \<forall>x\<in>set ks. x < N m
    \<Longrightarrow> for_each (body_k m i j) ks t
        = Inr (t\<lparr>tot_K := tot_K t + (\<Sum>k\<leftarrow>ks. term_K m i j k),
                 tot_L := tot_L t + (\<Sum>k\<leftarrow>ks. \<Sum>l\<leftarrow>[0..<N m]. term_L m i j k l)\<rparr>)"
  by (induction ks arbitrary: t) (simp_all add: body_k_ok add.assoc)

lemma body_j_ok:
  "shaped m \<Longrightarrow> i < N m \<Longrightarrow> j < N m
    \<Longrightarrow> body_j m i j t
        = Inr (t\<lparr>tot_J := tot_J t + term_J m i j,
                 tot_K := tot_K t + (\<Sum>k\<leftarrow>[0..<N m]. term_K m i j k),
                 tot_L := tot_L t + (\<Sum>k\<leftarrow>[0..<N m]. \<Sum>l\<leftarrow>[0..<N m]. term_L m i j k l)\<rparr>)"
  by (simp add: body_j_def shaped_J shaped_spin bind_res_def term_J_def loop_k_ok)

lemma loop_j_ok:
  "shaped m \<Longrightarrow> i < N m \<Longrightarrow> \<forall>x\<in>set js. x < N m
    \<Longrightarrow> for_each (body_j m i) js t
        = Inr (t\<lparr>tot_J := tot_J t + (\<Sum>j\<leftarrow>js. term_J m i j),
                 tot_K := tot_K t + (\<Sum>j\<leftarrow>js. \<Sum>k\<leftarrow>[0..<N m]. term_K m i j k),
                 tot_L := tot_L t
                   + (\<Sum>j\<leftarrow>js. \<Sum>k\<leftarrow>[0..<N m]. \<Sum>l\<leftarrow>[0..<N m]. term_L m i j k l)\<rparr>)"
  by (induction js arbitrary: t) (simp_all add: body_j_ok add.assoc)

lemma body_i_ok:
  "shaped m \<Longrightarrow> i < N m
    \<Longrightarrow> body_i m i t
        = Inr (t\<lparr>tot_h := tot_h t + term_h m i,
                 tot_J := tot_J t + (\<Sum>j\<leftarrow>[0..<N m]. term_J m i j),
                 tot_K := tot_K t + (\<Sum>j\<leftarrow>[0..<N m]. \<Sum>k\<leftarrow>[0..<N m]. term_K m i j k),
                 tot_L := tot_L t
                   + (\<Sum>j\<leftarrow>[0..<N m]. \<Sum>k\<leftarrow>[0..<N m]. \<Sum>l\<leftarrow>[0..<N m]. term_L m i j k l)\<rparr>)"
  by (simp add: body_i_def shaped_h shaped_spin bind_res_def term_h_def loop_j_ok)

lemma loop_i_ok:
  "shaped m \<Longrightarrow> \<forall>x\<in>set is. x < N m
    \<Longrightarrow> for_each (body_i m) is t
        = Inr (t\<lparr>tot_h := tot_h t + (\<Sum>i\<leftarrow>is. term_h m i),
                 tot_J := tot_J t + (\<Sum>i\<leftarrow>is. \<Sum>j\<leftarrow>[0..<N m]. term_J m i j),
                 tot_K := tot_K t
                   + (\<Sum>i\<leftarrow>is. \<Sum>j\<leftarrow>[0..<N m]. \<Sum>k\<leftarrow>[0..<N m]. term_K m i j k),
                 tot_L := tot_L t
                   + (\<Sum>i\<leftarrow>is. \<Sum>j\<leftarrow>[0..<N m]. \<Sum>k\<leftarrow>[0..<N m]. \<Sum>l\<leftarrow>[0..<N m].
                        term_L m i j k l)\<rparr>)"
  by (induction "is" arbitrary: t) (simp_all add: body_i_ok add.assoc)

lemma sum_list_upt_real: "(\<Sum>i\<leftarrow>[0..<n]. f i) = (\<Sum>i<n. (f i :: real))"
  by (simp add: interv_sum_list_conv_sum_set_nat atLeast0LessThan)

lemma energy_hamiltonian: "shaped m \<Longrightarrow> energy m = Inr (hamiltonian m)"
  by (simp add: energy_def loop_i_ok upt_below bind_res_def hamiltonian_def sum_list_upt_real)

subsection \<open>energy is the full sum\<close>

lemma config_shaped: "wf_model m \<Longrightarrow> config (N m) (spins m) \<Longrightarrow> shaped m"
  by (simp add: shaped_def config_def)

text \<open>
  C1: for a model whose tensors all have extent \<open>N\<close> and a configuration of \<open>N\<close> spins in
  \<open>{-1, 1}\<close>, \<open>energy\<close> returns \<open>E0\<close> plus the four sums of coefficient times spin product,
  every index ranging over all of \<open>{..<N}\<close> independently, repeated index tuples included.
\<close>

theorem energy_full_sum:
  assumes "wf_model m" and "config (N m) (spins m)"
  shows "energy m = Inr (E0 m
    + (\<Sum>i<N m. h m ! i * real_of_int (spins m ! i))
    + (\<Sum>i<N m. \<Sum>j<N m. J m ! i ! j * real_of_int (spins m ! i * spins m ! j))
    + (\<Sum>i<N m. \<Sum>j<N m. \<Sum>k<N m.
         K m ! i ! j ! k * real_of_int (spins m ! i * spins m ! j * spins m ! k))
    + (\<Sum>i<N m. \<Sum>j<N m. \<Sum>k<N m. \<Sum>l<N m.
         L m ! i ! j ! k ! l
           * real_of_int (spins m ! i * spins m ! j * spins m ! k * spins m ! l)))"
  using energy_hamiltonian [OF config_shaped [OF assms]]
  by (simp add: hamiltonian_def term_h_def term_J_def term_K_def term_L_def)

theorem energy_full_sum_witness:
  "wf_model two_site \<and> config (N two_site) (spins two_site) \<and> energy two_site = Inr (- 1)"
proof -
  have w: "wf_model two_site"
    by (simp add: two_site_def wf_model_def dims2_def dims3_def dims4_def)
  have c: "config (N two_site) (spins two_site)"
    by (simp add: two_site_def config_def)
  show ?thesis
    using w c energy_full_sum [OF w c]
    by (simp add: two_site_def lessThan_Suc numeral_2_eq_2)
qed

subsection \<open>Global flip symmetry\<close>

lemma all_zero1_nth: "all_zero1 xs \<Longrightarrow> i < length xs \<Longrightarrow> xs ! i = 0"
  by (simp add: all_zero1_def list_all_length)

lemma all_zero3_nth:
  "all_zero3 xs \<Longrightarrow> dims3 n xs \<Longrightarrow> i < n \<Longrightarrow> j < n \<Longrightarrow> k < n \<Longrightarrow> xs ! i ! j ! k = 0"
  by (simp add: all_zero3_def dims3_def dims2_def list_all_length all_zero1_nth)

lemma hamiltonian_negate:
  assumes sh: "shaped m" and zh: "all_zero1 (h m)" and zk: "all_zero3 (K m)"
  shows "hamiltonian (m\<lparr>spins := map uminus (spins m)\<rparr>) = hamiltonian m"
proof -
  let ?m' = "m\<lparr>spins := map uminus (spins m)\<rparr>"
  have len: "length (spins m) = N m" and lh: "length (h m) = N m" and dk: "dims3 (N m) (K m)"
    using sh by (simp_all add: shaped_def wf_model_def)
  have th: "term_h ?m' i = term_h m i" if "i < N m" for i
    using that all_zero1_nth [OF zh, of i] lh by (simp add: term_h_def)
  have tj: "term_J ?m' i j = term_J m i j" if "i < N m" "j < N m" for i j
    using that len by (simp add: term_J_def)
  have tk: "term_K ?m' i j k = term_K m i j k" if "i < N m" "j < N m" "k < N m" for i j k
    using that all_zero3_nth [OF zk dk, of i j k] by (simp add: term_K_def)
  have tl: "term_L ?m' i j k l = term_L m i j k l"
    if "i < N m" "j < N m" "k < N m" "l < N m" for i j k l
    using that len by (simp add: term_L_def)
  show ?thesis
    by (simp add: hamiltonian_def th tj tk tl)
qed

text \<open>
  C7: when \<open>h\<close> and \<open>K\<close> are identically zero, \<open>energy\<close> on the globally negated
  configuration equals \<open>energy\<close> on the configuration itself.
\<close>

theorem energy_global_flip:
  assumes "wf_model m" and "config (N m) (spins m)"
    and "all_zero1 (h m)" and "all_zero3 (K m)"
  shows "energy (m\<lparr>spins := map uminus (spins m)\<rparr>) = energy m"
proof -
  have sh: "shaped m"
    using assms(1,2) by (rule config_shaped)
  then have "shaped (m\<lparr>spins := map uminus (spins m)\<rparr>)"
    by (simp add: shaped_def wf_model_def)
  then show ?thesis
    using sh assms(3,4) by (simp add: energy_hamiltonian hamiltonian_negate)
qed

theorem energy_global_flip_witness:
  "wf_model even_site \<and> config (N even_site) (spins even_site)
    \<and> all_zero1 (h even_site) \<and> all_zero3 (K even_site)
    \<and> energy (even_site\<lparr>spins := [- 1, 1]\<rparr>) = energy even_site
    \<and> energy even_site = Inr 1"
proof -
  have w: "wf_model even_site"
    by (simp add: even_site_def wf_model_def dims2_def dims3_def dims4_def)
  have c: "config (N even_site) (spins even_site)"
    by (simp add: even_site_def config_def)
  have zh: "all_zero1 (h even_site)"
    by (simp add: even_site_def all_zero1_def)
  have zk: "all_zero3 (K even_site)"
    by (simp add: even_site_def all_zero3_def all_zero1_def)
  have s: "map uminus (spins even_site) = [- 1, 1]"
    by (simp add: even_site_def)
  have e: "energy even_site = Inr 1"
    by code_simp
  show ?thesis
    using w c zh zk e energy_global_flip [OF w c zh zk] by (simp add: s)
qed

subsection \<open>energy_diff\<close>

lemma flip_spin_inside:
  "0 \<le> i \<Longrightarrow> i < int (length (spins m))
    \<Longrightarrow> flip_spin m i = Inr (m\<lparr>spins := (spins m)[nat i := - (spins m ! nat i)]\<rparr>)"
  by (simp add: flip_spin_def np_index_def bind_res_def)

lemma flip_spin_wrapped:
  "i < 0 \<Longrightarrow> - int (length (spins m)) \<le> i
    \<Longrightarrow> flip_spin m i = flip_spin m (int (length (spins m)) + i)"
  by (simp add: flip_spin_def np_index_def bind_res_def)

lemma flip_spin_outside:
  "int (length (spins m)) \<le> i \<or> i < - int (length (spins m))
    \<Longrightarrow> flip_spin m i = Inl IndexError"
  by (auto simp add: flip_spin_def np_index_def bind_res_def)

lemma energy_diff_inside:
  assumes sh: "shaped m" and i0: "0 \<le> i" and iN: "i < int (N m)"
  shows "energy_diff m i
    = (Inr (hamiltonian (m\<lparr>spins := (spins m)[nat i := - (spins m ! nat i)]\<rparr>)
          - hamiltonian m), m)"
proof -
  let ?m1 = "m\<lparr>spins := (spins m)[nat i := - (spins m ! nat i)]\<rparr>"
  have len: "length (spins m) = N m"
    using sh by (simp add: shaped_def)
  have sh1: "shaped ?m1"
    using sh by (simp add: shaped_def wf_model_def)
  have f1: "flip_spin m i = Inr ?m1"
    using i0 iN len by (simp add: flip_spin_inside)
  have f2: "flip_spin ?m1 i = Inr m"
    using i0 iN len by (simp add: flip_spin_inside)
  show ?thesis
    by (simp add: energy_diff_def energy_hamiltonian [OF sh] energy_hamiltonian [OF sh1] f1 f2)
qed

text \<open>
  C3: for a site \<open>i\<close> in \<open>[0, N)\<close>, \<open>energy_diff i\<close> returns \<open>energy\<close> of the configuration with
  entry \<open>i\<close> negated minus \<open>energy\<close> of the configuration (exactly, in exact arithmetic:
  the method subtracts the two full evaluations).
\<close>

theorem energy_diff_is_difference:
  assumes "wf_model m" and "config (N m) (spins m)" and "0 \<le> i" and "i < int (N m)"
  shows "\<exists>e1 e2. energy m = Inr e1
    \<and> energy (m\<lparr>spins := (spins m)[nat i := - (spins m ! nat i)]\<rparr>) = Inr e2
    \<and> fst (energy_diff m i) = Inr (e2 - e1)"
proof -
  have sh: "shaped m"
    using assms(1,2) by (rule config_shaped)
  then have sh1: "shaped (m\<lparr>spins := (spins m)[nat i := - (spins m ! nat i)]\<rparr>)"
    by (simp add: shaped_def wf_model_def)
  show ?thesis
    using energy_hamiltonian [OF sh] energy_hamiltonian [OF sh1]
      energy_diff_inside [OF sh assms(3,4)]
    by simp
qed

theorem energy_diff_is_difference_witness:
  "wf_model two_site \<and> config (N two_site) (spins two_site)
    \<and> (0::int) \<le> 0 \<and> 0 < int (N two_site)
    \<and> energy two_site = Inr (- 1)
    \<and> energy (two_site\<lparr>spins := [- 1, - 1]\<rparr>) = Inr 3
    \<and> fst (energy_diff two_site 0) = Inr 4"
proof -
  have w: "wf_model two_site"
    by (simp add: two_site_def wf_model_def dims2_def dims3_def dims4_def)
  have c: "config (N two_site) (spins two_site)"
    by (simp add: two_site_def config_def)
  have n: "0 < int (N two_site)"
    by (simp add: two_site_def)
  have s: "(spins two_site)[0 := - (spins two_site ! 0)] = [- 1, - 1]"
    by (simp add: two_site_def)
  have e1: "energy two_site = Inr (- 1)"
    by code_simp
  have e2: "energy (two_site\<lparr>spins := [- 1, - 1]\<rparr>) = Inr 3"
    by code_simp
  show ?thesis
    using w c n e1 e2 energy_diff_is_difference [OF w c order_refl n] by (auto simp add: s)
qed

lemma np_index_inside: "np_index n i = Inr p \<Longrightarrow> p < n"
  by (auto simp add: np_index_def split: if_splits)

lemma flip_spin_Inr:
  "flip_spin m i = Inr m1
    \<Longrightarrow> \<exists>p < length (spins m). np_index (length (spins m)) i = Inr p
          \<and> m1 = m\<lparr>spins := (spins m)[p := - (spins m ! p)]\<rparr>"
  by (cases "np_index (length (spins m)) i")
    (auto simp add: flip_spin_def bind_res_def dest: np_index_inside)

lemma energy_diff_returns_same:
  assumes "fst (energy_diff m i) = Inr d"
  shows "snd (energy_diff m i) = m"
proof -
  obtain e1 m1 e2 m2 where e1: "energy m = Inr e1" and f1: "flip_spin m i = Inr m1"
    and e2: "energy m1 = Inr e2" and f2: "flip_spin m1 i = Inr m2"
    using assms by (auto simp add: energy_diff_def split: sum.splits)
  obtain p where p: "p < length (spins m)" "np_index (length (spins m)) i = Inr p"
    and m1: "m1 = m\<lparr>spins := (spins m)[p := - (spins m ! p)]\<rparr>"
    using flip_spin_Inr [OF f1] by blast
  have "flip_spin m1 i = Inr m"
    using p by (simp add: flip_spin_def bind_res_def m1)
  then have "m2 = m"
    using f2 by simp
  then show ?thesis
    by (simp add: energy_diff_def e1 f1 e2 f2)
qed

text \<open>
  C4: for a site \<open>i\<close> in \<open>[0, N)\<close> of a well-formed model \<open>energy_diff i\<close> returns, and
  whenever \<open>energy_diff\<close> returns, the object after the call is the object before it: the
  temporary flip is reverted.
\<close>

theorem energy_diff_restores_spins:
  "(wf_model m \<and> config (N m) (spins m) \<and> 0 \<le> i \<and> i < int (N m)
      \<longrightarrow> (\<exists>d. fst (energy_diff m i) = Inr d))
    \<and> (fst (energy_diff m i) = Inr d \<longrightarrow> snd (energy_diff m i) = m)"
proof -
  have "\<exists>d. fst (energy_diff m i) = Inr d"
    if "wf_model m" "config (N m) (spins m)" "0 \<le> i" "i < int (N m)"
    using energy_diff_inside [OF config_shaped [OF that(1,2)] that(3,4)] by simp
  then show ?thesis
    using energy_diff_returns_same [of m i d] by blast
qed

theorem energy_diff_restores_spins_witness:
  "wf_model two_site \<and> config (N two_site) (spins two_site)
    \<and> (0::int) \<le> 1 \<and> 1 < int (N two_site)
    \<and> fst (energy_diff two_site 1) = Inr 12 \<and> snd (energy_diff two_site 1) = two_site"
proof -
  have w: "wf_model two_site"
    by (simp add: two_site_def wf_model_def dims2_def dims3_def dims4_def)
  have c: "config (N two_site) (spins two_site)"
    by (simp add: two_site_def config_def)
  have n: "1 < int (N two_site)"
    by (simp add: two_site_def)
  have d: "fst (energy_diff two_site 1) = Inr 12"
    by code_simp
  have "fst (energy_diff two_site 1) = Inr 12 \<longrightarrow> snd (energy_diff two_site 1) = two_site"
    using energy_diff_restores_spins [of two_site 1 12] by (rule conjunct2)
  then have "snd (energy_diff two_site 1) = two_site"
    using d by (elim impE)
  then show ?thesis
    using w c n d by simp
qed

lemma energy_diff_outside:
  assumes sh: "shaped m" and out: "int (N m) \<le> i \<or> i < - int (N m)"
  shows "energy_diff m i = (Inl IndexError, m)"
proof -
  have "flip_spin m i = Inl IndexError"
    using sh out by (simp add: flip_spin_outside shaped_def)
  then show ?thesis
    by (simp add: energy_diff_def energy_hamiltonian [OF sh])
qed

lemma energy_diff_wrapped:
  assumes sh: "shaped m" and neg: "i < 0" and low: "- int (N m) \<le> i"
  shows "energy_diff m i = energy_diff m (int (N m) + i)"
proof -
  let ?p = "int (N m) + i"
  let ?m1 = "m\<lparr>spins := (spins m)[nat ?p := - (spins m ! nat ?p)]\<rparr>"
  have len: "length (spins m) = N m"
    using sh by (simp add: shaped_def)
  have f1: "flip_spin m i = flip_spin m ?p"
    using neg low len flip_spin_wrapped [of i m] by simp
  have g1: "flip_spin m ?p = Inr ?m1"
    using neg low len by (simp add: flip_spin_inside)
  have f2: "flip_spin ?m1 i = flip_spin ?m1 ?p"
    using neg low len flip_spin_wrapped [of i ?m1] by simp
  have sh1: "shaped ?m1"
    using sh by (simp add: shaped_def wf_model_def)
  show ?thesis
    by (simp add: energy_diff_def energy_hamiltonian [OF sh] energy_hamiltonian [OF sh1]
        f1 g1 f2)
qed

text \<open>
  C8, as the specification words it, has \<open>energy_diff\<close> raise for every site outside
  \<open>[0, N)\<close>, negative ones included. On the one-site model, site \<open>-1\<close> is evaluated and a
  delta is returned.
\<close>

theorem energy_diff_negative_site_counterexample:
  "fst (energy_diff one_site (- 1)) = Inr 2"
  by code_simp

text \<open>
  C8, amended: \<open>energy_diff i\<close> raises \<open>IndexError\<close>, leaving the object unchanged, when
  \<open>i \<ge> N\<close> or \<open>i < -N\<close>; a negative \<open>i\<close> with \<open>-N \<le> i < 0\<close> is not rejected and behaves
  as site \<open>N + i\<close>.
\<close>

theorem energy_diff_out_of_range:
  assumes "wf_model m" and "config (N m) (spins m)"
  shows "(int (N m) \<le> i \<or> i < - int (N m) \<longrightarrow> energy_diff m i = (Inl IndexError, m))
    \<and> (- int (N m) \<le> i \<and> i < 0 \<longrightarrow> energy_diff m i = energy_diff m (int (N m) + i))"
  using energy_diff_outside [OF config_shaped [OF assms]]
    energy_diff_wrapped [OF config_shaped [OF assms]]
  by simp

theorem energy_diff_out_of_range_witness:
  "wf_model one_site \<and> config (N one_site) (spins one_site)
    \<and> energy_diff one_site 1 = (Inl IndexError, one_site)
    \<and> energy_diff one_site (- 2) = (Inl IndexError, one_site)
    \<and> energy_diff one_site (- 1) = energy_diff one_site 0"
proof -
  have w: "wf_model one_site"
    by (simp add: one_site_def wf_model_def dims2_def dims3_def dims4_def)
  have c: "config (N one_site) (spins one_site)"
    by (simp add: one_site_def config_def)
  have n: "int (N one_site) = 1"
    by (simp add: one_site_def)
  show ?thesis
    using w c energy_diff_out_of_range [OF w c, of 1]
      energy_diff_out_of_range [OF w c, of "- 2"]
      energy_diff_out_of_range [OF w c, of "- 1"]
    by (simp add: n)
qed

subsection \<open>The rows of space\<close>

lemma and_bit_pos: "(d AND push_bit b (1::int)) > 0 \<longleftrightarrow> bit d b"
proof -
  have "0 \<le> d AND push_bit b (1::int)"
    by simp
  moreover have "bit d b \<longleftrightarrow> d AND push_bit b 1 \<noteq> 0"
    by (rule bit_iff_and_push_bit_not_eq_0)
  ultimately show ?thesis
    by linarith
qed

lemma space_row_bits: "space_row n d = map (\<lambda>b. if bit d b then 1 else - 1) [0..<n]"
  unfolding space_row_def by (simp only: and_bit_pos) simp

lemma space_row_config: "config n (space_row n d)"
  by (auto simp add: space_row_bits config_def list_all_iff)

lemma space_row_inj:
  assumes "0 \<le> d" "d < 2 ^ n" "0 \<le> d'" "d' < 2 ^ n" "space_row n d = space_row n d'"
  shows "d = d'"
proof -
  have "bit d b = bit d' b" if "b < n" for b
  proof -
    have "space_row n d ! b = space_row n d' ! b"
      using assms(5) by simp
    then show ?thesis
      using that by (simp add: space_row_bits split: if_splits)
  qed
  then have "take_bit n d = take_bit n d'"
    by (auto simp add: bit_eq_iff bit_take_bit_iff)
  then show ?thesis
    using assms(1-4) by (simp add: take_bit_int_eq_self)
qed

lemma length_space: "length (space n) = 2 ^ n"
  by (simp add: space_def)

lemma distinct_space: "distinct (space n)"
proof -
  have "inj_on (\<lambda>d. space_row n (int d)) (set [0..<2 ^ n])"
  proof (rule inj_onI)
    fix x y
    assume "x \<in> set [0..<2 ^ n]" "y \<in> set [0..<2 ^ n]"
      and eq: "space_row n (int x) = space_row n (int y)"
    then have "int x < 2 ^ n" "int y < 2 ^ n"
      by (simp_all add: of_nat_less_iff [of _ "2 ^ n", where ?'a = int, simplified])
    then have "int x = int y"
      using eq by (intro space_row_inj [of "int x" n "int y"]) simp_all
    then show "x = y"
      by simp
  qed
  then show ?thesis
    by (simp add: space_def distinct_map)
qed

lemma config_set: "{s. config n s} = {s. set s \<subseteq> {- 1, 1} \<and> length s = n}"
  by (auto simp add: config_def list_all_iff)

lemma set_space: "set (space n) = {s. config n s}"
proof (rule card_subset_eq)
  show "finite {s. config n s}"
    by (simp add: config_set finite_lists_length_eq)
  show "set (space n) \<subseteq> {s. config n s}"
    by (auto simp add: space_def space_row_config)
  have "card (set (space n)) = 2 ^ n"
    using distinct_space [of n] by (simp add: distinct_card length_space)
  moreover have "card {s. config n s} = 2 ^ n"
    by (simp add: config_set card_lists_length_eq numeral_2_eq_2)
  ultimately show "card (set (space n)) = card {s. config n s}"
    by simp
qed

lemma space_nth: "d < 2 ^ n \<Longrightarrow> space n ! d = space_row n (int d)"
  by (simp add: space_def)

text \<open>
  C5: for every \<open>n\<close>, \<open>space n\<close> has \<open>2 ^ n\<close> rows, row \<open>d\<close> has \<open>1\<close> at position \<open>b\<close> when
  bit \<open>b\<close> of \<open>d\<close> is set and \<open>-1\<close> otherwise, no row occurs twice, and the rows are exactly
  the configurations of \<open>n\<close> spins in \<open>{-1, 1}\<close>.
\<close>

theorem space_enumerates_once:
  "length (space n) = 2 ^ n \<and> distinct (space n) \<and> set (space n) = {s. config n s}
    \<and> (d < 2 ^ n \<and> b < n \<longrightarrow> space n ! d ! b = (if bit d b then 1 else - 1))"
  by (simp add: length_space distinct_space set_space space_nth space_row_bits bit_of_nat_iff_bit)

theorem space_enumerates_once_witness:
  "space 2 = [[- 1, - 1], [1, - 1], [- 1, 1], [1, 1]]
    \<and> length (space 2) = 2 ^ 2 \<and> distinct (space 2) \<and> set (space 2) = {s. config 2 s}
    \<and> (2::nat) < 2 ^ 2 \<and> (1::nat) < 2 \<and> space 2 ! 2 ! 1 = 1"
proof -
  have s: "space 2 = [[- 1, - 1], [1, - 1], [- 1, 1], [1, 1]]"
    by code_simp
  have b: "bit (2::nat) 1"
    by (simp add: bit_iff_odd)
  show ?thesis
    using space_enumerates_once [of 2 2 1] b by (simp add: s)
qed

subsection \<open>The exhaustive scan\<close>

lemma last_row: "space n ! (2 ^ n - Suc 0) = replicate n 1"
proof -
  have "int (2 ^ n - Suc 0) = mask n"
    by (simp add: mask_eq_exp_minus_1 of_nat_diff)
  then have "space_row n (int (2 ^ n - Suc 0)) = map (\<lambda>b. 1) [0..<n]"
    by (simp add: space_row_bits bit_mask_iff)
  then show ?thesis
    by (simp add: space_nth map_replicate_const)
qed

lemma wf_spins_upd: "wf_model (m\<lparr>spins := s\<rparr>) = wf_model m"
  by (simp add: wf_model_def)

lemma scan_step_ok:
  assumes wf: "wf_model m" and i: "i < 2 ^ N m"
  shows "scan_step (space (N m)) i (m, mn)
    = Inr (m\<lparr>spins := space (N m) ! i\<rparr>,
           update_min mn (hamiltonian (m\<lparr>spins := space (N m) ! i\<rparr>)))"
proof -
  have g: "get1 (space (N m)) i = Inr (space (N m) ! i)"
    using i by (simp add: get1_ok length_space)
  have "config (N m) (space (N m) ! i)"
    using i by (simp add: space_nth space_row_config)
  then have "shaped (m\<lparr>spins := space (N m) ! i\<rparr>)"
    using wf by (simp add: shaped_def wf_spins_upd config_def)
  then have e: "energy (m\<lparr>spins := space (N m) ! i\<rparr>)
      = Inr (hamiltonian (m\<lparr>spins := space (N m) ! i\<rparr>))"
    by (rule energy_hamiltonian)
  show ?thesis
    by (simp add: scan_step_def g e bind_res_def Let_def)
qed

lemma scan_loop:
  assumes "wf_model m" and "\<forall>i\<in>set is. i < 2 ^ N m"
  shows "for_each (scan_step (space (N m))) is (m, mn)
    = Inr (m\<lparr>spins := (if is = [] then spins m else space (N m) ! last is)\<rparr>,
           fold (\<lambda>i a. update_min a (hamiltonian (m\<lparr>spins := space (N m) ! i\<rparr>))) is mn)"
  using assms
proof (induction "is" arbitrary: m mn)
  case Nil
  then show ?case by simp
next
  case (Cons x xs)
  let ?m1 = "m\<lparr>spins := space (N m) ! x\<rparr>"
  have x: "x < 2 ^ N m" and xs: "\<forall>i\<in>set xs. i < 2 ^ N ?m1"
    using Cons.prems(2) by simp_all
  have wf1: "wf_model ?m1"
    using Cons.prems(1) by (simp add: wf_spins_upd)
  show ?case
    using Cons.IH [OF wf1 xs] by (simp add: scan_step_ok [OF Cons.prems(1) x])
qed

lemma scan_step_state:
  "scan_step sp i (m, mn) = Inr (m', mn') \<Longrightarrow> i < length sp \<Longrightarrow> m' = m\<lparr>spins := sp ! i\<rparr>"
  by (auto simp add: scan_step_def bind_res_def get1_def Let_def split: sum.splits)

lemma scan_loop_state:
  assumes "for_each (scan_step sp) is (m, mn) = Inr (m', mn')"
    and "is \<noteq> []" and "\<forall>i\<in>set is. i < length sp"
  shows "m' = m\<lparr>spins := sp ! last is\<rparr>"
  using assms
proof (induction "is" arbitrary: m mn)
  case Nil
  then show ?case by simp
next
  case (Cons x xs)
  obtain m1 mn1 where s: "scan_step sp x (m, mn) = Inr (m1, mn1)"
    and r: "for_each (scan_step sp) xs (m1, mn1) = Inr (m', mn')"
    using Cons.prems(1) by (cases "scan_step sp x (m, mn)") auto
  have m1: "m1 = m\<lparr>spins := sp ! x\<rparr>"
    using s Cons.prems(3) by (intro scan_step_state [of sp x m mn m1 mn1]) simp_all
  show ?case
  proof (cases "xs = []")
    case True
    then show ?thesis
      using r m1 by simp
  next
    case False
    have "m' = m1\<lparr>spins := sp ! last xs\<rparr>"
      using r False Cons.prems(3) by (intro Cons.IH [of m1 mn1]) simp_all
    then show ?thesis
      using False m1 by simp
  qed
qed

lemma last_space: "last (space n) = replicate n 1"
proof -
  have "last (space n) = space n ! (2 ^ n - Suc 0)"
    by (simp add: last_conv_nth length_space space_def)
  then show ?thesis
    by (simp only: last_row)
qed

lemma exhaustive_state:
  assumes "exhaustive m = Inr (m', mn')"
  shows "m' = m\<lparr>spins := last (space (num_spins m))\<rparr>"
proof -
  let ?sp = "space (num_spins m)"
  have r: "for_each (scan_step ?sp) [0..<2 ^ num_spins m] (m, None) = Inr (m', mn')"
    using assms by (simp add: exhaustive_def Let_def)
  have "m' = m\<lparr>spins := ?sp ! last [0..<2 ^ num_spins m]\<rparr>"
    using r by (rule scan_loop_state) (simp_all add: length_space)
  moreover have "last ?sp = ?sp ! last [0..<2 ^ num_spins m]"
    by (simp add: last_conv_nth length_space space_def last_upt)
  ultimately show ?thesis
    by simp
qed

lemma fold_min_some:
  "\<exists>r. fold (\<lambda>i a. update_min a (f i)) is (Some v) = Some r \<and> r \<le> v
     \<and> (\<forall>i\<in>set is. r \<le> f i) \<and> (r = v \<or> r \<in> f ` set is)"
proof (induction "is" arbitrary: v)
  case Nil
  then show ?case by simp
next
  case (Cons x xs)
  let ?v = "if v > f x then f x else v"
  obtain r where r: "fold (\<lambda>i a. update_min a (f i)) xs (Some ?v) = Some r"
    "r \<le> ?v" "\<forall>i\<in>set xs. r \<le> f i" "r = ?v \<or> r \<in> f ` set xs"
    using Cons.IH [of ?v] by blast
  have u: "update_min (Some v) (f x) = Some ?v"
    by (simp add: update_min_def)
  have "fold (\<lambda>i a. update_min a (f i)) (x # xs) (Some v)
      = fold (\<lambda>i a. update_min a (f i)) xs (update_min (Some v) (f x))"
    by simp
  then have "fold (\<lambda>i a. update_min a (f i)) (x # xs) (Some v) = Some r"
    using r(1) by (simp only: u)
  moreover have "r \<le> v" "r \<le> f x"
    using r(2) by (simp_all split: if_splits)
  moreover have "r = v \<or> r \<in> f ` set (x # xs)"
    using r(4) by (auto split: if_splits)
  ultimately show ?case
    using r(3) by simp
qed

lemma fold_min_none:
  assumes "is \<noteq> []"
  shows "\<exists>r. fold (\<lambda>i a. update_min a (f i)) is None = Some r
     \<and> (\<forall>i\<in>set is. r \<le> f i) \<and> r \<in> f ` set is"
proof -
  obtain x xs where c: "is = x # xs"
    using assms by (cases "is") auto
  obtain r where r: "fold (\<lambda>i a. update_min a (f i)) xs (Some (f x)) = Some r"
    "r \<le> f x" "\<forall>i\<in>set xs. r \<le> f i" "r = f x \<or> r \<in> f ` set xs"
    using fold_min_some [of f xs "f x"] by blast
  have u: "update_min None (f x) = Some (f x)"
    by (simp add: update_min_def)
  have "fold (\<lambda>i a. update_min a (f i)) is None
      = fold (\<lambda>i a. update_min a (f i)) xs (update_min None (f x))"
    by (simp add: c)
  then have "fold (\<lambda>i a. update_min a (f i)) is None = Some r"
    using r(1) by (simp only: u)
  then show ?thesis
    using r(2,3,4) by (auto simp add: c)
qed

lemma exhaustive_run:
  assumes wf: "wf_model m"
  shows "exhaustive m
      = Inr (m\<lparr>spins := replicate (N m) 1\<rparr>,
             fold (\<lambda>i a. update_min a (hamiltonian (m\<lparr>spins := space (N m) ! i\<rparr>)))
               [0..<2 ^ N m] None)"
proof -
  have ns: "num_spins m = N m"
    using wf by (simp add: wf_model_def)
  have b: "\<forall>i\<in>set [0..<2 ^ N m]. i < 2 ^ N m"
    by simp
  have ne: "[0..<2 ^ N m] \<noteq> []"
    by simp
  have l: "last [0..<2 ^ N m] = 2 ^ N m - Suc 0"
    by (simp add: last_upt)
  have "for_each (scan_step (space (N m))) [0..<2 ^ N m] (m, None)
      = Inr (m\<lparr>spins := space (N m) ! last [0..<2 ^ N m]\<rparr>,
             fold (\<lambda>i a. update_min a (hamiltonian (m\<lparr>spins := space (N m) ! i\<rparr>)))
               [0..<2 ^ N m] None)"
    unfolding scan_loop [OF wf b] using ne by (simp only: if_False)
  then show ?thesis
    unfolding exhaustive_def Let_def ns l last_row .
qed

lemma rows_are_configs: "(\<lambda>i. space n ! i) ` set [0..<2 ^ n] = {s. config n s}"
proof -
  have "(!) (space n) ` {0..<2 ^ n} = set (take (2 ^ n) (space n))"
    by (rule nth_image) (simp add: length_space)
  then show ?thesis
    by (simp add: length_space set_space)
qed

lemma exhaustive_result:
  assumes wf: "wf_model m"
  shows "\<exists>v. exhaustive m = Inr (m\<lparr>spins := replicate (N m) 1\<rparr>, Some v)
    \<and> (\<forall>s. config (N m) s \<longrightarrow> v \<le> hamiltonian (m\<lparr>spins := s\<rparr>))
    \<and> (\<exists>s. config (N m) s \<and> v = hamiltonian (m\<lparr>spins := s\<rparr>))"
proof -
  let ?is = "[0..<2 ^ N m]"
  let ?f = "\<lambda>i. hamiltonian (m\<lparr>spins := space (N m) ! i\<rparr>)"
  have ne: "?is \<noteq> []"
    by simp
  obtain r where r1: "fold (\<lambda>i a. update_min a (?f i)) ?is None = Some r"
    and r2: "\<forall>i\<in>set ?is. r \<le> ?f i" and r3: "r \<in> ?f ` set ?is"
    using fold_min_none [OF ne, of ?f] by blast
  have run: "exhaustive m = Inr (m\<lparr>spins := replicate (N m) 1\<rparr>, Some r)"
    unfolding exhaustive_run [OF wf] r1 ..
  have low: "r \<le> hamiltonian (m\<lparr>spins := s\<rparr>)" if "config (N m) s" for s
  proof -
    have "s \<in> (\<lambda>i. space (N m) ! i) ` set ?is"
      using that by (simp only: rows_are_configs mem_Collect_eq)
    then obtain i where "i \<in> set ?is" and "s = space (N m) ! i"
      by (rule imageE)
    then show ?thesis
      using r2 by simp
  qed
  obtain i where i: "i \<in> set ?is" and ri: "r = ?f i"
    using r3 by (rule imageE)
  have "space (N m) ! i \<in> (\<lambda>i. space (N m) ! i) ` set ?is"
    using i by (rule imageI)
  then have cfg: "config (N m) (space (N m) ! i)"
    by (simp only: rows_are_configs mem_Collect_eq)
  have "\<exists>s. config (N m) s \<and> r = hamiltonian (m\<lparr>spins := s\<rparr>)"
    using cfg ri by (intro exI [of _ "space (N m) ! i"] conjI)
  then show ?thesis
    using run low by (intro exI [of _ r]) simp
qed

text \<open>
  C2, as the specification words it, has the scan yield a configuration achieving the
  minimum. The scan keeps the minimum value only: on the one-site model it yields \<open>-1\<close>,
  reached at \<open>[-1]\<close>, while the only configuration it leaves, the stored spins \<open>[1]\<close>, has
  energy \<open>1\<close>.
\<close>

theorem exhaustive_no_minimiser_counterexample:
  "exhaustive one_site = Inr (one_site\<lparr>spins := [1]\<rparr>, Some (- 1))
    \<and> energy (one_site\<lparr>spins := [1]\<rparr>) = Inr 1
    \<and> energy (one_site\<lparr>spins := [- 1]\<rparr>) = Inr (- 1)"
  by code_simp

text \<open>
  C2, amended: for every well-formed model the scan completes, visits all \<open>2 ^ N\<close>
  configurations, and its \<open>min\<close> is the exact minimum of \<open>energy\<close> over them: some
  configuration has that energy and none has less. No minimising configuration is recorded:
  the object it leaves holds the last row of \<open>space\<close> as its spins.
\<close>

theorem exhaustive_exact_minimum:
  assumes "wf_model m"
  shows "\<exists>v. exhaustive m = Inr (m\<lparr>spins := last (space (N m))\<rparr>, Some v)
    \<and> (\<exists>s. config (N m) s \<and> energy (m\<lparr>spins := s\<rparr>) = Inr v)
    \<and> (\<forall>s. config (N m) s \<longrightarrow> (\<exists>e. energy (m\<lparr>spins := s\<rparr>) = Inr e \<and> v \<le> e))"
proof -
  have e: "energy (m\<lparr>spins := s\<rparr>) = Inr (hamiltonian (m\<lparr>spins := s\<rparr>))"
    if "config (N m) s" for s
  proof (rule energy_hamiltonian)
    show "shaped (m\<lparr>spins := s\<rparr>)"
      using assms that by (simp add: shaped_def wf_spins_upd config_def)
  qed
  obtain v where run: "exhaustive m = Inr (m\<lparr>spins := replicate (N m) 1\<rparr>, Some v)"
    and low: "\<forall>s. config (N m) s \<longrightarrow> v \<le> hamiltonian (m\<lparr>spins := s\<rparr>)"
    and att: "\<exists>s. config (N m) s \<and> v = hamiltonian (m\<lparr>spins := s\<rparr>)"
    using exhaustive_result [OF assms] by blast
  have "\<exists>s. config (N m) s \<and> energy (m\<lparr>spins := s\<rparr>) = Inr v"
    using att e by auto
  moreover have "\<forall>s. config (N m) s \<longrightarrow> (\<exists>e. energy (m\<lparr>spins := s\<rparr>) = Inr e \<and> v \<le> e)"
    using low e by simp
  moreover have "exhaustive m = Inr (m\<lparr>spins := last (space (N m))\<rparr>, Some v)"
    using run by (simp only: last_space)
  ultimately show ?thesis
    by (intro exI [of _ v] conjI)
qed

theorem exhaustive_exact_minimum_witness:
  "wf_model one_site \<and> exhaustive one_site = Inr (one_site\<lparr>spins := [1]\<rparr>, Some (- 1))
    \<and> (\<exists>s. config (N one_site) s \<and> energy (one_site\<lparr>spins := s\<rparr>) = Inr (- 1))
    \<and> config (N one_site) [1]
    \<and> (\<exists>e. energy (one_site\<lparr>spins := [1]\<rparr>) = Inr e \<and> - 1 \<le> e)"
proof -
  have w: "wf_model one_site"
    by (simp add: one_site_def wf_model_def dims2_def dims3_def dims4_def)
  have r: "exhaustive one_site = Inr (one_site\<lparr>spins := [1]\<rparr>, Some (- 1))"
    by code_simp
  have c: "config (N one_site) [1]"
    by (simp add: one_site_def config_def)
  obtain v
    where x: "exhaustive one_site = Inr (one_site\<lparr>spins := last (space (N one_site))\<rparr>, Some v)"
    and a: "\<exists>s. config (N one_site) s \<and> energy (one_site\<lparr>spins := s\<rparr>) = Inr v"
    and b: "\<forall>s. config (N one_site) s
          \<longrightarrow> (\<exists>e. energy (one_site\<lparr>spins := s\<rparr>) = Inr e \<and> v \<le> e)"
    using exhaustive_exact_minimum [OF w] by blast
  have v: "v = - 1"
    using x unfolding r by simp
  have "\<exists>e. energy (one_site\<lparr>spins := [1]\<rparr>) = Inr e \<and> v \<le> e"
    using b c by (elim allE impE)
  then show ?thesis
    using w r a c unfolding v by (intro conjI)
qed

text \<open>
  C10: the scan of a well-formed model completes, and whenever the scan completes the
  stored spins are the last row of \<open>space\<close>, the all-ones vector, whatever they were
  before and whichever configuration minimises the energy; nothing else of the object
  changes.
\<close>

theorem exhaustive_leaves_last_assignment:
  "(wf_model m \<longrightarrow> (\<exists>mn. exhaustive m = Inr (m\<lparr>spins := replicate (N m) 1\<rparr>, mn)))
    \<and> (exhaustive m = Inr (m', mn')
          \<longrightarrow> m' = m\<lparr>spins := last (space (num_spins m))\<rparr>
            \<and> last (space (num_spins m)) = replicate (num_spins m) 1)"
proof -
  have "\<exists>mn. exhaustive m = Inr (m\<lparr>spins := replicate (N m) 1\<rparr>, mn)" if "wf_model m"
    using exhaustive_result [OF that] by auto
  then show ?thesis
    using exhaustive_state [of m m' mn'] by (simp add: last_space)
qed

theorem exhaustive_leaves_last_assignment_witness:
  "wf_model two_site \<and> spins two_site = [1, - 1]
    \<and> exhaustive two_site = Inr (two_site\<lparr>spins := [1, 1]\<rparr>, Some (- 1))
    \<and> last (space (num_spins two_site)) = [1, 1]
    \<and> energy (two_site\<lparr>spins := [1, 1]\<rparr>) = Inr 11"
proof -
  have w: "wf_model two_site"
    by (simp add: two_site_def wf_model_def dims2_def dims3_def dims4_def)
  have n: "replicate (num_spins two_site) (1::int) = [1, 1]"
    by (simp add: two_site_def numeral_2_eq_2)
  have r: "exhaustive two_site = Inr (two_site\<lparr>spins := [1, 1]\<rparr>, Some (- 1))"
    by code_simp
  have e: "energy (two_site\<lparr>spins := [1, 1]\<rparr>) = Inr 11"
    by code_simp
  have s: "spins two_site = [1, - 1]"
    by (simp add: two_site_def)
  have "exhaustive two_site = Inr (two_site\<lparr>spins := [1, 1]\<rparr>, Some (- 1))
      \<longrightarrow> two_site\<lparr>spins := [1, 1]\<rparr>
          = two_site\<lparr>spins := last (space (num_spins two_site))\<rparr>
        \<and> last (space (num_spins two_site)) = replicate (num_spins two_site) 1"
    using exhaustive_leaves_last_assignment
      [of two_site "two_site\<lparr>spins := [1, 1]\<rparr>" "Some (- 1)"]
    by (rule conjunct2)
  then have l: "last (space (num_spins two_site)) = [1, 1]"
    using r unfolding n by (elim impE conjE)
  show ?thesis
    using w s r l e by (intro conjI)
qed

subsection \<open>The constructor and errors of energy\<close>

lemma bind_res_err:
  assumes "bind_res r f = Inl e"
    and "\<And>e'. r = Inl e' \<Longrightarrow> e' = IndexError"
    and "\<And>v e'. r = Inr v \<Longrightarrow> f v = Inl e' \<Longrightarrow> e' = IndexError"
  shows "e = IndexError"
  using assms by (cases r) (auto simp add: bind_res_def)

lemma get1_err: "get1 xs i = Inl e \<Longrightarrow> e = IndexError"
  by (simp add: get1_def split: if_splits)

lemma get2_err: "get2 xs i j = Inl e \<Longrightarrow> e = IndexError"
  unfolding get2_def by (erule bind_res_err) (auto dest: get1_err)

lemma get3_err: "get3 xs i j k = Inl e \<Longrightarrow> e = IndexError"
  unfolding get3_def by (erule bind_res_err) (auto dest: get1_err get2_err)

lemma get4_err: "get4 xs i j k l = Inl e \<Longrightarrow> e = IndexError"
  unfolding get4_def by (erule bind_res_err) (auto dest: get1_err get3_err)

lemma for_each_err:
  assumes "for_each f xs s = Inl e" and "\<And>x s' e'. f x s' = Inl e' \<Longrightarrow> e' = IndexError"
  shows "e = IndexError"
  using assms(1)
proof (induction xs arbitrary: s)
  case Nil
  then show ?case by simp
next
  case (Cons x xs)
  then show ?case
    by (cases "f x s") (auto dest: assms(2))
qed

lemma body_l_err: "body_l m i j k l t = Inl e \<Longrightarrow> e = IndexError"
  unfolding body_l_def
  by (erule bind_res_err, erule get4_err)+ (auto elim!: bind_res_err dest: get1_err)

lemma body_k_err: "body_k m i j k t = Inl e \<Longrightarrow> e = IndexError"
  unfolding body_k_def
  by (erule bind_res_err, erule get3_err)+
    (auto elim!: bind_res_err dest: get1_err elim: for_each_err body_l_err)

lemma body_j_err: "body_j m i j t = Inl e \<Longrightarrow> e = IndexError"
  unfolding body_j_def
  by (erule bind_res_err, erule get2_err)+
    (auto elim!: bind_res_err dest: get1_err elim: for_each_err body_k_err)

lemma body_i_err: "body_i m i t = Inl e \<Longrightarrow> e = IndexError"
  unfolding body_i_def
  by (erule bind_res_err, erule get1_err)+
    (auto elim!: bind_res_err dest: get1_err elim: for_each_err body_j_err)

lemma energy_err: "energy m = Inl e \<Longrightarrow> e = IndexError"
  unfolding energy_def
  by (erule bind_res_err) (auto elim: for_each_err body_i_err)

lemma for_each_fails:
  assumes "x \<in> set xs" and "\<And>s'. \<exists>e. f x s' = Inl e"
  shows "\<exists>e. for_each f xs s = Inl e"
  using assms(1)
proof (induction xs arbitrary: s)
  case Nil
  then show ?case by simp
next
  case (Cons y ys)
  show ?case
  proof (cases "f y s")
    case (Inl e)
    then show ?thesis by simp
  next
    case (Inr s1)
    have "x \<in> set ys"
      using Cons.prems Inr assms(2) [of s] by auto
    then show ?thesis
      using Cons.IH [of s1] Inr by simp
  qed
qed

lemma energy_short_h:
  assumes "length (h m) < N m"
  shows "energy m = Inl IndexError"
proof -
  have "length (h m) \<in> set [0..<N m]"
    using assms by simp
  moreover have "\<exists>e. body_i m (length (h m)) s' = Inl e" for s'
    by (simp add: body_i_def get1_def bind_res_def)
  ultimately obtain e
    where "for_each (body_i m) [0..<N m] \<lparr>tot_h = 0, tot_J = 0, tot_K = 0, tot_L = 0\<rparr> = Inl e"
    using for_each_fails [of "length (h m)" "[0..<N m]" "body_i m"] by blast
  then have "energy m = Inl e"
    by (simp add: energy_def bind_res_def)
  then show ?thesis
    using energy_err by blast
qed

text \<open>
  C9, as the specification words it, has construction fail for \<open>N \<le> 0\<close> and for tensors
  whose extent is not \<open>N\<close>. Construction with \<open>N = 0\<close> succeeds, and so does construction
  with \<open>N = 1\<close> and empty tensors.
\<close>

theorem init_accepts_counterexample:
  "init 0 [] [] [] [] 0 all_low
      = Inr \<lparr>E0 = 0, h = [], J = [], K = [], L = [], N = 0, num_spins = 0, spins = []\<rparr>
    \<and> init 0 [] [] [] [] 1 all_low
      = Inr \<lparr>E0 = 0, h = [], J = [], K = [], L = [], N = 1, num_spins = 1, spins = [1]\<rparr>"
  by (simp add: init_def all_low_def)

text \<open>
  C9, amended: construction raises (\<open>ValueError\<close>, from the draw of the spins) exactly when
  \<open>N < 0\<close>; for \<open>N \<ge> 0\<close> it succeeds whatever the extents of the tensors, stores them as
  given and draws \<open>N\<close> spins in \<open>{-1, 1}\<close>; an \<open>h\<close> shorter than \<open>N\<close> is met only by
  \<open>energy\<close>, which raises \<open>IndexError\<close>.
\<close>

theorem init_checks_only_sign:
  "(n < 0 \<longrightarrow> init e0 hh jj kk ll n rnd = Inl ValueError)
    \<and> (0 \<le> n \<longrightarrow> (\<exists>m. init e0 hh jj kk ll n rnd = Inr m
          \<and> E0 m = e0 \<and> h m = hh \<and> J m = jj \<and> K m = kk \<and> L m = ll
          \<and> N m = nat n \<and> num_spins m = nat n \<and> config (nat n) (spins m)
          \<and> (length hh < nat n \<longrightarrow> energy m = Inl IndexError)))"
proof -
  let ?m = "\<lparr>E0 = e0, h = hh, J = jj, K = kk, L = ll, N = nat n, num_spins = nat n,
     spins = map (\<lambda>k. 2 * (if rnd k < 0.5 then 1 else 0) - 1) [0..<nat n]\<rparr>"
  have c: "config (nat n) (spins ?m)"
    by (simp add: config_def list_all_iff)
  have s: "length hh < nat n \<longrightarrow> energy ?m = Inl IndexError"
    using energy_short_h [of ?m] by simp
  show ?thesis
    using c s by (simp add: init_def)
qed

theorem init_checks_only_sign_witness:
  "init 0 [1] [[0]] [[[0]]] [[[[0]]]] (- 1) all_low = Inl ValueError
    \<and> (\<exists>m. init 0 [] [] [] [] 1 all_low = Inr m \<and> h m = [] \<and> N m = 1
          \<and> config 1 (spins m) \<and> energy m = Inl IndexError)"
  using init_checks_only_sign [of "- 1" 0 "[1]" "[[0]]" "[[[0]]]" "[[[[0]]]]" all_low]
    init_checks_only_sign [of 1 0 "[]" "[]" "[]" "[]" all_low]
  by auto

end
